theory Spec2Isabelle
  imports Main "HOL-Library.Sublist"
begin

section \<open>Strings of the JavaScript runtime\<close>

text \<open>
  The pages under \<^verbatim>\<open>v0-app/app\<close> call four methods of the runtime's String:
  \<^verbatim>\<open>startsWith\<close>, \<^verbatim>\<open>includes\<close>, \<^verbatim>\<open>trim\<close> and \<^verbatim>\<open>toLowerCase\<close>.
  A string is the list of its code units. The first two only compare code units, so they
  are written out for every unit type. \<^verbatim>\<open>trim\<close> strips the units the runtime classifies
  as white space from both ends; the classification is a parameter. \<^verbatim>\<open>toLowerCase\<close>
  is the runtime's Unicode mapping and is a parameter wherever it is called.
\<close>

fun js_startsWith :: "'c list \<Rightarrow> 'c list \<Rightarrow> bool" where
  "js_startsWith s [] = True"
| "js_startsWith [] (q # qs) = False"
| "js_startsWith (c # cs) (q # qs) = (c = q \<and> js_startsWith cs qs)"

fun js_includes :: "'c list \<Rightarrow> 'c list \<Rightarrow> bool" where
  "js_includes [] q = js_startsWith [] q"
| "js_includes (c # cs) q = (js_startsWith (c # cs) q \<or> js_includes cs q)"

definition js_trim :: "('c \<Rightarrow> bool) \<Rightarrow> 'c list \<Rightarrow> 'c list" where
  "js_trim isWhiteSpace s = rev (dropWhile isWhiteSpace (rev (dropWhile isWhiteSpace s)))"

text \<open>
  One instance of the two parameters, on text whose code units are below 256. White space
  is what \<^verbatim>\<open>trim\<close> strips there: tab, line feed, vertical tab, form feed, carriage
  return, space and no-break space. The letters A to Z are mapped to a to z.
\<close>

definition latin1WhiteSpace :: "char \<Rightarrow> bool" where
  "latin1WhiteSpace c =
     (c \<in> set [CHR 0x09, CHR 0x0A, CHR 0x0B, CHR 0x0C, CHR 0x0D, CHR 0x20, CHR 0xA0])"

definition asciiLowerUnit :: "char \<Rightarrow> char" where
  "asciiLowerUnit c =
     (case map_of (zip ''ABCDEFGHIJKLMNOPQRSTUVWXYZ'' ''abcdefghijklmnopqrstuvwxyz'') c of
        Some d \<Rightarrow> d
      | None \<Rightarrow> c)"

definition asciiToLowerCase :: "string \<Rightarrow> string" where
  "asciiToLowerCase s = map asciiLowerUnit s"

section \<open>Upload page: \<^verbatim>\<open>handleFile\<close>\<close>

text \<open>
  \<^verbatim>\<open>v0-app/app/editor/page.tsx\<close>, second document (UploadPage), lines 166 to 207.
  The component state is \<^verbatim>\<open>dragActive\<close>, \<^verbatim>\<open>selectedFile\<close> and \<^verbatim>\<open>previewUrl\<close>;
  \<^verbatim>\<open>null\<close> is \<open>None\<close>. A File is read through its \<^verbatim>\<open>name\<close>, \<^verbatim>\<open>type\<close> and
  \<^verbatim>\<open>size\<close>. \<^verbatim>\<open>URL.createObjectURL\<close> belongs to the browser and is a parameter.
\<close>

record js_file =
  file_name :: string
  file_type :: string
  file_size :: nat

record upload_state =
  dragActive :: bool
  selectedFile :: "js_file option"
  previewUrl :: "string option"

definition handleFile :: "(js_file \<Rightarrow> string) \<Rightarrow> js_file \<Rightarrow> upload_state \<Rightarrow> upload_state" where
  "handleFile createObjectURL f st =
     (if js_startsWith (file_type f) ''image/'' \<or> js_startsWith (file_type f) ''video/''
      then st\<lparr>selectedFile := Some f, previewUrl := Some (createObjectURL f)\<rparr>
      else st)"

section \<open>Dashboard page: \<^verbatim>\<open>filteredProjects\<close>\<close>

text \<open>
  \<^verbatim>\<open>v0-app/app/dashboard/page.tsx\<close>, lines 10 to 46. \<^verbatim>\<open>Array.prototype.filter\<close>
  keeps the elements that satisfy the predicate, in the order of the array.
\<close>

record project =
  project_id :: nat
  project_name :: string
  project_type :: string
  project_thumbnail :: string
  project_lastEdited :: string
  project_status :: string

definition mockProjects :: "project list" where
  "mockProjects =
     [\<lparr>project_id = 1, project_name = ''Summer Vacation Photos'', project_type = ''photo'',
       project_thumbnail = ''/placeholder.svg?height=200&width=300&text=Summer+Photos'',
       project_lastEdited = ''2 hours ago'', project_status = ''completed''\<rparr>,
      \<lparr>project_id = 2, project_name = ''Product Launch Video'', project_type = ''video'',
       project_thumbnail = ''/placeholder.svg?height=200&width=300&text=Product+Video'',
       project_lastEdited = ''1 day ago'', project_status = ''in-progress''\<rparr>,
      \<lparr>project_id = 3, project_name = ''Portrait Session'', project_type = ''photo'',
       project_thumbnail = ''/placeholder.svg?height=200&width=300&text=Portraits'',
       project_lastEdited = ''3 days ago'', project_status = ''completed''\<rparr>]"

definition filteredProjects :: "(string \<Rightarrow> string) \<Rightarrow> project list \<Rightarrow> string \<Rightarrow> project list" where
  "filteredProjects toLowerCase projects searchQuery =
     filter (\<lambda>p. js_includes (toLowerCase (project_name p)) (toLowerCase searchQuery)) projects"

section \<open>Editor page: \<^verbatim>\<open>handleSendMessage\<close>\<close>

text \<open>
  \<^verbatim>\<open>v0-app/app/editor/page.tsx\<close>, first document (EditorPage), lines 10 to 41.
  The component state is \<^verbatim>\<open>message\<close> and \<^verbatim>\<open>chatHistory\<close>. The handler also
  calls \<^verbatim>\<open>setTimeout\<close>: the state carries the timers that are pending, each with its
  delay in milliseconds and the history its callback will set. \<^verbatim>\<open>!message.trim()\<close> holds
  exactly when the trimmed string is empty.
\<close>

record chat_entry =
  entry_type :: string
  entry_content :: string

record editor_state =
  message :: string
  chatHistory :: "chat_entry list"
  pendingTimeouts :: "(nat \<times> chat_entry list) list"

definition initialEditorState :: editor_state where
  "initialEditorState =
     \<lparr>message = '''',
      chatHistory =
        [\<lparr>entry_type = ''system'',
          entry_content =
            ''Hi! I'm your AI editing assistant. Tell me what you'd like to do with your image!''\<rparr>],
      pendingTimeouts = []\<rparr>"

definition handleSendMessage :: "(char \<Rightarrow> bool) \<Rightarrow> editor_state \<Rightarrow> editor_state" where
  "handleSendMessage isWhiteSpace st =
     (if js_trim isWhiteSpace (message st) = [] then st
      else
        let newHistory =
              chatHistory st @
              [\<lparr>entry_type = ''user'', entry_content = message st\<rparr>,
               \<lparr>entry_type = ''assistant'',
                entry_content = ''Great! I'll apply those changes to your image. Processing...''\<rparr>]
        in st\<lparr>chatHistory := newHistory,
              message := '''',
              pendingTimeouts := pendingTimeouts st @
                [(2000, newHistory @
                   [\<lparr>entry_type = ''assistant'',
                     entry_content =
                       ''Done! I've enhanced the saturation and added a warm vintage feel to your image. How does it look?''\<rparr>])]\<rparr>)"

text \<open>A pending timer fires: its callback sets the history it captured.\<close>

fun fireTimeout :: "editor_state \<Rightarrow> editor_state" where
  "fireTimeout st =
     (case pendingTimeouts st of
        [] \<Rightarrow> st
      | (delay, h) # rest \<Rightarrow> st\<lparr>chatHistory := h, pendingTimeouts := rest\<rparr>)"

section \<open>Editing orchestration: DraftClient and PlanExecutor\<close>

text \<open>
  The command-line layer that README.md and SETUP.md describe (the wrapper around the
  draft-authoring server and the plan executor) has no source file in the repository. The
  definitions of this section follow the specification, sections 3, 4.2, 4.5, 7 and 8.
\<close>

text \<open>
  Modelled from the spec: the result of one DraftClient request (4.2), whose code is
  missing. A request returns either an acknowledgment, the element id the server assigned,
  or a typed failure: \<open>Rejected\<close> (malformed parameters), \<open>Unreachable\<close> (network or
  timeout) or \<open>ServerError\<close> (5xx). A server is read as the function from the number of
  the attempt, counted from 0, to the result of that attempt.
\<close>

datatype call_failure = Rejected | Unreachable | ServerError

type_synonym call_result = "call_failure + string"

type_synonym server_stub = "nat \<Rightarrow> call_result"

text \<open>
  Modelled from the spec: the retry policy of a DraftClient call (4.2, 7, 8), whose code
  is missing. At most \<open>cap\<close> attempts are made (the retry cap; the spec leaves its value
  to the configuration). An acknowledgment ends the call; \<open>Rejected\<close> is never retried
  and is returned at once; \<open>Unreachable\<close> and \<open>ServerError\<close> are retried while attempts
  are left, and then the last failure is returned. The second component counts the
  attempts made. Before any attempt the call has reached nothing, which is reported as
  \<open>Unreachable\<close>. The backoff between attempts is a delay and has no part in the result.
\<close>

fun attempts_loop :: "server_stub \<Rightarrow> nat \<Rightarrow> nat \<Rightarrow> call_failure \<Rightarrow> call_result \<times> nat" where
  "attempts_loop server 0 n last_failure = (Inl last_failure, n)"
| "attempts_loop server (Suc left) n last_failure =
     (case server n of
        Inr element_id \<Rightarrow> (Inr element_id, Suc n)
      | Inl Rejected \<Rightarrow> (Inl Rejected, Suc n)
      | Inl Unreachable \<Rightarrow> attempts_loop server left (Suc n) Unreachable
      | Inl ServerError \<Rightarrow> attempts_loop server left (Suc n) ServerError)"

definition call_with_retry :: "nat \<Rightarrow> server_stub \<Rightarrow> call_result \<times> nat" where
  "call_with_retry cap server = attempts_loop server cap 0 Unreachable"

definition is_transient :: "call_result \<Rightarrow> bool" where
  "is_transient r = (r = Inl Unreachable \<or> r = Inl ServerError)"

text \<open>
  Modelled from the spec: the stub of the testable property of section 8, which returns
  \<open>ServerError\<close> exactly \<open>k\<close> times and then succeeds.
\<close>

definition server_error_then_ok :: "nat \<Rightarrow> string \<Rightarrow> server_stub" where
  "server_error_then_ok k element_id = (\<lambda>n. if n < k then Inl ServerError else Inr element_id)"

text \<open>
  Modelled from the spec: the EditOperations of an EditingPlan (3) and the states of one
  operation in the DraftSession (3, 4.5), whose code is missing. An operation is a video
  cut or one of the five overlay kinds; the time window is in seconds.
\<close>

datatype op_kind = VideoCut | TextOverlay | AudioTrack | SubtitleCue | Effect | Sticker

record edit_operation =
  op_kind :: op_kind
  op_start :: int
  op_end :: int
  op_content :: string

type_synonym editing_plan = "edit_operation list"

datatype op_status = Pending | Sent | Acknowledged | Failed

text \<open>
  Modelled from the spec: the transition out of \<open>Sent\<close> (4.5): acknowledged on a
  successful response, failed once the call has given up.
\<close>

definition settle :: "call_result \<Rightarrow> op_status" where
  "settle r = (case r of Inr element_id \<Rightarrow> Acknowledged | Inl failure \<Rightarrow> Failed)"

text \<open>
  Modelled from the spec: the DraftSession (3), whose code is missing: the status of every
  operation, by its index in the plan, the DraftClient calls in the order they were
  invoked, and the failures recorded (operation index and failure).
\<close>

datatype client_call = OperationCall nat | SaveDraftCall

record draft_session =
  statuses :: "op_status list"
  calls :: "client_call list"
  failures :: "(nat \<times> call_failure) list"

datatype execution_result =
    DraftSaved string "(nat \<times> call_failure) list"
  | PlanExecutionFailed "(nat \<times> call_failure) list"
  | SaveDraftFailed call_failure

text \<open>
  Modelled from the spec: one operation's pass through the state machine of 4.5, whose
  code is missing. The operation moves to \<open>Sent\<close> when its DraftClient call is invoked,
  and to its terminal state when the call returns; a failure is recorded in the session
  and does not stop the executor (7).
\<close>

definition send_operation ::
  "nat \<Rightarrow> (nat \<Rightarrow> server_stub) \<Rightarrow> draft_session \<Rightarrow> nat \<Rightarrow> draft_session" where
  "send_operation cap server s i =
     (let sent = s\<lparr>statuses := (statuses s)[i := Sent], calls := calls s @ [OperationCall i]\<rparr>
      in case fst (call_with_retry cap (server i)) of
           Inr element_id \<Rightarrow> sent\<lparr>statuses := (statuses sent)[i := Acknowledged]\<rparr>
         | Inl failure \<Rightarrow>
             sent\<lparr>statuses := (statuses sent)[i := Failed],
                  failures := failures sent @ [(i, failure)]\<rparr>)"

definition cut_indices :: "editing_plan \<Rightarrow> nat list" where
  "cut_indices plan = filter (\<lambda>i. op_kind (plan ! i) = VideoCut) [0..<length plan]"

definition overlay_indices :: "editing_plan \<Rightarrow> nat list" where
  "overlay_indices plan = filter (\<lambda>i. op_kind (plan ! i) \<noteq> VideoCut) [0..<length plan]"

text \<open>
  Modelled from the spec: the sending phase of PlanExecutor (4.5), whose code is missing.
  Every operation starts \<open>Pending\<close>. The video cuts are sent in the plan's order, then
  the overlays (here in the plan's order, one of the orders the spec allows).
\<close>

definition send_all :: "nat \<Rightarrow> (nat \<Rightarrow> server_stub) \<Rightarrow> editing_plan \<Rightarrow> draft_session" where
  "send_all cap server plan =
     foldl (send_operation cap server)
       (foldl (send_operation cap server)
          \<lparr>statuses = replicate (length plan) Pending, calls = [], failures = []\<rparr>
          (cut_indices plan))
       (overlay_indices plan)"

text \<open>
  Modelled from the spec: PlanExecutor (4.5), whose code is missing. When every operation
  is in a terminal state: if a video cut is \<open>Failed\<close>, \<open>saveDraft\<close> is skipped and the
  result is \<open>PlanExecutionFailed\<close> with the recorded failures; otherwise \<open>saveDraft\<close> is
  invoked, and the result carries the draft folder path and the overlay failures as
  warnings. The spec does not say what a failed \<open>saveDraft\<close> yields; it is reported as
  \<open>SaveDraftFailed\<close>. \<open>server i\<close> answers the call of operation \<open>i\<close>, \<open>save_server\<close>
  the call of \<open>saveDraft\<close>.
\<close>

definition execute ::
  "nat \<Rightarrow> (nat \<Rightarrow> server_stub) \<Rightarrow> server_stub \<Rightarrow> editing_plan \<Rightarrow> draft_session \<times> execution_result" where
  "execute cap server save_server plan =
     (let s = send_all cap server plan
      in if list_ex (\<lambda>i. statuses s ! i = Failed) (cut_indices plan)
         then (s, PlanExecutionFailed (failures s))
         else
           let saved = s\<lparr>calls := calls s @ [SaveDraftCall]\<rparr>
           in case fst (call_with_retry cap save_server) of
                Inr path \<Rightarrow> (saved, DraftSaved path (failures saved))
              | Inl failure \<Rightarrow> (saved, SaveDraftFailed failure))"

text \<open>
  The scenario of section 8: a video of 120 seconds, two cuts and one text overlay.
\<close>

definition scenario_plan :: editing_plan where
  "scenario_plan =
     [\<lparr>op_kind = VideoCut, op_start = 0, op_end = 30, op_content = ''''\<rparr>,
      \<lparr>op_kind = VideoCut, op_start = 60, op_end = 90, op_content = ''''\<rparr>,
      \<lparr>op_kind = TextOverlay, op_start = 2, op_end = 5, op_content = ''Hi''\<rparr>]"

section \<open>Editing orchestration: cancellation\<close>

text \<open>
  Modelled from the spec: the two halves of one operation's DraftClient call (4.5), whose
  code is missing. Invoking the call moves the operation to \<open>Sent\<close> and records the call;
  the call's return moves it to its terminal state. One after the other they are
  \<open>send_operation\<close>.
\<close>

definition issue_operation :: "draft_session \<Rightarrow> nat \<Rightarrow> draft_session" where
  "issue_operation s i =
     s\<lparr>statuses := (statuses s)[i := Sent], calls := calls s @ [OperationCall i]\<rparr>"

definition settle_operation ::
  "nat \<Rightarrow> (nat \<Rightarrow> server_stub) \<Rightarrow> draft_session \<Rightarrow> nat \<Rightarrow> draft_session" where
  "settle_operation cap server s i =
     (case fst (call_with_retry cap (server i)) of
        Inr element_id \<Rightarrow> s\<lparr>statuses := (statuses s)[i := Acknowledged]\<rparr>
      | Inl failure \<Rightarrow>
          s\<lparr>statuses := (statuses s)[i := Failed], failures := failures s @ [(i, failure)]\<rparr>)"

text \<open>
  Modelled from the spec: the state of one orchestration run with its calls in flight
  (4.5, 4.6, 5), whose code is missing: the session, the operations not sent yet (the
  video cuts in the plan's order, then the overlays), the DraftClient calls that were
  invoked and have not returned, the answer to \<open>saveDraft\<close> once it has returned, whether
  the cancellation signal was received, and the outcome once it is reported. A run is
  reported either as the executor's result or as \<open>Cancelled\<close>, with the statuses the
  operations had reached.
\<close>

datatype run_result = Completed execution_result | Cancelled "op_status list"

record orchestration =
  run_session :: draft_session
  run_todo :: "nat list"
  run_in_flight :: "client_call list"
  run_saved :: "call_result option"
  run_cancelled :: bool
  run_reported :: "run_result option"

definition initial_run :: "editing_plan \<Rightarrow> orchestration" where
  "initial_run plan =
     \<lparr>run_session = \<lparr>statuses = replicate (length plan) Pending, calls = [], failures = []\<rparr>,
      run_todo = cut_indices plan @ overlay_indices plan,
      run_in_flight = [],
      run_saved = None,
      run_cancelled = False,
      run_reported = None\<rparr>"

text \<open>
  Modelled from the spec: what may happen next in a run (5). \<open>Issue\<close>: the executor
  invokes its next call. \<open>Response c\<close>: the call \<open>c\<close>, in flight, returns.
  \<open>CancelSignal\<close>: the Orchestrator receives the cancellation signal. \<open>Report\<close>: the
  Orchestrator reports the outcome.
\<close>

datatype run_event = Issue | Response client_call | CancelSignal | Report

text \<open>
  Modelled from the spec: the ordering rule of 4.5 and 5 for the next operation \<open>i\<close>. A
  video cut is sent only when no call is in flight (cuts are never parallel). An overlay is
  sent only when no video cut is in flight (all cuts, which come first, are settled) and
  fewer than \<open>fan_out\<close> calls are in flight.
\<close>

definition may_issue :: "nat \<Rightarrow> editing_plan \<Rightarrow> nat \<Rightarrow> client_call list \<Rightarrow> bool" where
  "may_issue fan_out plan i flying =
     (if op_kind (plan ! i) = VideoCut then flying = []
      else list_all (\<lambda>c. case c of
                            OperationCall j \<Rightarrow> op_kind (plan ! j) \<noteq> VideoCut
                          | SaveDraftCall \<Rightarrow> False) flying
           \<and> length flying < fan_out)"

text \<open>
  Modelled from the spec: one step of a run (4.5, 4.6, 5), whose code is missing.
  \<^item> \<open>CancelSignal\<close> sets the flag and touches nothing else: a call in flight is not
    aborted.
  \<^item> \<open>Response c\<close> settles the call \<open>c\<close> if it is in flight, whether or not the run is
    cancelled.
  \<^item> \<open>Issue\<close> does nothing once the run is cancelled or reported. Otherwise it sends the
    next operation if the ordering rule allows it; when every operation is settled and no
    video cut has failed, it invokes \<open>saveDraft\<close>, once.
  \<^item> \<open>Report\<close> waits until no call is in flight. A cancelled run is reported as
    \<open>Cancelled\<close> with the statuses reached; otherwise the run is reported as
    \<open>execute\<close> reports it, once every operation is settled and \<open>saveDraft\<close> has
    returned or was skipped.
\<close>

fun step ::
  "nat \<Rightarrow> nat \<Rightarrow> (nat \<Rightarrow> server_stub) \<Rightarrow> server_stub \<Rightarrow> editing_plan \<Rightarrow>
   orchestration \<Rightarrow> run_event \<Rightarrow> orchestration" where
  "step fan_out cap server save_server plan st CancelSignal = st\<lparr>run_cancelled := True\<rparr>"
| "step fan_out cap server save_server plan st (Response c) =
     (if c \<notin> set (run_in_flight st) then st
      else case c of
             OperationCall i \<Rightarrow>
               st\<lparr>run_session := settle_operation cap server (run_session st) i,
                  run_in_flight := remove1 c (run_in_flight st)\<rparr>
           | SaveDraftCall \<Rightarrow>
               st\<lparr>run_saved := Some (fst (call_with_retry cap save_server)),
                  run_in_flight := remove1 c (run_in_flight st)\<rparr>)"
| "step fan_out cap server save_server plan st Issue =
     (if run_cancelled st \<or> run_reported st \<noteq> None then st
      else case run_todo st of
             i # rest \<Rightarrow>
               if may_issue fan_out plan i (run_in_flight st)
               then st\<lparr>run_session := issue_operation (run_session st) i,
                       run_todo := rest,
                       run_in_flight := run_in_flight st @ [OperationCall i]\<rparr>
               else st
           | [] \<Rightarrow>
               if run_in_flight st = [] \<and> run_saved st = None \<and>
                  SaveDraftCall \<notin> set (calls (run_session st)) \<and>
                  \<not> list_ex (\<lambda>i. statuses (run_session st) ! i = Failed) (cut_indices plan)
               then st\<lparr>run_session :=
                         (run_session st)\<lparr>calls := calls (run_session st) @ [SaveDraftCall]\<rparr>,
                       run_in_flight := [SaveDraftCall]\<rparr>
               else st)"
| "step fan_out cap server save_server plan st Report =
     (if run_reported st \<noteq> None \<or> run_in_flight st \<noteq> [] then st
      else if run_cancelled st
      then st\<lparr>run_reported := Some (Cancelled (statuses (run_session st)))\<rparr>
      else if run_todo st \<noteq> [] then st
      else if list_ex (\<lambda>i. statuses (run_session st) ! i = Failed) (cut_indices plan)
      then st\<lparr>run_reported :=
                Some (Completed (PlanExecutionFailed (failures (run_session st))))\<rparr>
      else case run_saved st of
             None \<Rightarrow> st
           | Some (Inr path) \<Rightarrow>
               st\<lparr>run_reported :=
                    Some (Completed (DraftSaved path (failures (run_session st))))\<rparr>
           | Some (Inl failure) \<Rightarrow>
               st\<lparr>run_reported := Some (Completed (SaveDraftFailed failure))\<rparr>)"

text \<open>
  Modelled from the spec: a run is the steps of a schedule, in order. The schedule is any
  list of events: the claims about cancellation hold for all of them.
\<close>

definition run ::
  "nat \<Rightarrow> nat \<Rightarrow> (nat \<Rightarrow> server_stub) \<Rightarrow> server_stub \<Rightarrow> editing_plan \<Rightarrow>
   orchestration \<Rightarrow> run_event list \<Rightarrow> orchestration" where
  "run fan_out cap server save_server plan st events =
     foldl (step fan_out cap server save_server plan) st events"

text \<open>
  The invariant of a cancelled run that the proofs carry through a schedule: once the
  signal is received, the run is either not reported yet, or reported as \<open>Cancelled\<close>
  with the statuses of the session and with no call in flight.
\<close>

definition reported_cancelled :: "orchestration \<Rightarrow> bool" where
  "reported_cancelled st =
     (run_cancelled st \<and>
      (run_reported st = None \<or>
       (run_reported st = Some (Cancelled (statuses (run_session st))) \<and> run_in_flight st = [])))"

section \<open>Facts about the runtime's string methods\<close>

lemma js_startsWith_prefix: "js_startsWith s q = prefix q s"
  by (induction s q rule: js_startsWith.induct) auto

lemma js_includes_sublist: "js_includes s q = sublist q s"
proof (induction s)
  case Nil
  show ?case by (simp add: js_startsWith_prefix)
next
  case (Cons c cs)
  show ?case
    by (simp add: Cons.IH js_startsWith_prefix sublist_Cons_right)
qed

lemma js_trim_empty_iff: "js_trim ws s = [] \<longleftrightarrow> list_all ws s"
proof -
  have a: "js_trim ws s = [] \<longleftrightarrow> (\<forall>x\<in>set (dropWhile ws s). ws x)"
    by (simp add: js_trim_def)
  have b: "(\<forall>x\<in>set (dropWhile ws s). ws x) \<longleftrightarrow> dropWhile ws s = []"
  proof
    assume h: "\<forall>x\<in>set (dropWhile ws s). ws x"
    show "dropWhile ws s = []"
    proof (rule ccontr)
      assume ne: "dropWhile ws s \<noteq> []"
      then have "\<not> ws (hd (dropWhile ws s))" by (rule hd_dropWhile)
      moreover from ne have "hd (dropWhile ws s) \<in> set (dropWhile ws s)" by simp
      ultimately show False using h by blast
    qed
  next
    assume e: "dropWhile ws s = []"
    show "\<forall>x\<in>set (dropWhile ws s). ws x" unfolding e by simp
  qed
  have c: "dropWhile ws s = [] \<longleftrightarrow> list_all ws s"
    by (simp add: list_all_iff)
  from a b c show ?thesis by blast
qed

lemma sublist_map_iff:
  "sublist (map f q) (map f n) \<longleftrightarrow> (\<exists>s. sublist s n \<and> map f s = map f q)"
proof
  assume "sublist (map f q) (map f n)"
  then obtain before after where "map f n = before @ map f q @ after"
    by (auto simp: sublist_def)
  then obtain n1 n2 n3 where "n = n1 @ n2 @ n3" and "map f n2 = map f q"
    by (auto simp: map_eq_append_conv append_eq_map_conv)
  then show "\<exists>s. sublist s n \<and> map f s = map f q"
    by (auto simp: sublist_def)
next
  assume "\<exists>s. sublist s n \<and> map f s = map f q"
  then obtain s where "sublist s n" and e: "map f s = map f q" by blast
  then obtain ps ss where "n = ps @ s @ ss" by (auto simp: sublist_def)
  then have "map f n = map f ps @ map f s @ map f ss" by simp
  then have "sublist (map f s) (map f n)" unfolding sublist_def by blast
  then show "sublist (map f q) (map f n)" by (simp add: e)
qed

section \<open>Claims about the pages\<close>

text \<open>
  C8. \<^verbatim>\<open>handleFile\<close> accepts a file exactly when its MIME type starts with
  \<^verbatim>\<open>image/\<close> or \<^verbatim>\<open>video/\<close>: then \<^verbatim>\<open>selectedFile\<close> becomes the file and
  \<^verbatim>\<open>previewUrl\<close> the object URL made for it; for every other type the state, and so
  both \<^verbatim>\<open>selectedFile\<close> and \<^verbatim>\<open>previewUrl\<close>, is left as it was. "Starts with" is
  stated with the prefix order on lists, not with the recursion of \<open>js_startsWith\<close>.
\<close>

theorem handleFile_accepts_iff_image_or_video:
  "(prefix ''image/'' (file_type f) \<or> prefix ''video/'' (file_type f) \<longrightarrow>
      selectedFile (handleFile createObjectURL f st) = Some f \<and>
      previewUrl (handleFile createObjectURL f st) = Some (createObjectURL f) \<and>
      dragActive (handleFile createObjectURL f st) = dragActive st)
   \<and> (\<not> (prefix ''image/'' (file_type f) \<or> prefix ''video/'' (file_type f)) \<longrightarrow>
      handleFile createObjectURL f st = st \<and>
      selectedFile (handleFile createObjectURL f st) = selectedFile st \<and>
      previewUrl (handleFile createObjectURL f st) = previewUrl st)"
proof (cases "prefix ''image/'' (file_type f) \<or> prefix ''video/'' (file_type f)")
  case True
  then have "handleFile createObjectURL f st =
      st\<lparr>selectedFile := Some f, previewUrl := Some (createObjectURL f)\<rparr>"
    by (simp add: handleFile_def js_startsWith_prefix)
  with True show ?thesis by simp
next
  case False
  then have "handleFile createObjectURL f st = st"
    by (simp add: handleFile_def js_startsWith_prefix)
  with False show ?thesis by simp
qed

theorem handleFile_accepts_iff_image_or_video_witness:
  "selectedFile
     (handleFile (\<lambda>f. ''blob:'' @ file_name f)
        \<lparr>file_name = ''clip.mp4'', file_type = ''video/mp4'', file_size = 1024\<rparr>
        \<lparr>dragActive = False, selectedFile = None, previewUrl = None\<rparr>)
     = Some \<lparr>file_name = ''clip.mp4'', file_type = ''video/mp4'', file_size = 1024\<rparr>
   \<and> previewUrl
     (handleFile (\<lambda>f. ''blob:'' @ file_name f)
        \<lparr>file_name = ''clip.mp4'', file_type = ''video/mp4'', file_size = 1024\<rparr>
        \<lparr>dragActive = False, selectedFile = None, previewUrl = None\<rparr>)
     = Some ''blob:clip.mp4''
   \<and> handleFile (\<lambda>f. ''blob:'' @ file_name f)
        \<lparr>file_name = ''notes.pdf'', file_type = ''application/pdf'', file_size = 7\<rparr>
        \<lparr>dragActive = False, selectedFile = None, previewUrl = None\<rparr>
     = \<lparr>dragActive = False, selectedFile = None, previewUrl = None\<rparr>"
  using
    handleFile_accepts_iff_image_or_video
      [of "\<lparr>file_name = ''clip.mp4'', file_type = ''video/mp4'', file_size = 1024\<rparr>"
          "\<lambda>f. ''blob:'' @ file_name f"
          "\<lparr>dragActive = False, selectedFile = None, previewUrl = None\<rparr>"]
    handleFile_accepts_iff_image_or_video
      [of "\<lparr>file_name = ''notes.pdf'', file_type = ''application/pdf'', file_size = 7\<rparr>"
          "\<lambda>f. ''blob:'' @ file_name f"
          "\<lparr>dragActive = False, selectedFile = None, previewUrl = None\<rparr>"]
  by simp

text \<open>
  C9. \<^verbatim>\<open>filteredProjects\<close> holds exactly the projects whose name contains the query
  as a case-insensitive substring, in the order of \<^verbatim>\<open>projects\<close>; when the query is
  empty, it is the whole list. Case-insensitive is read the way the page computes it: both
  the name and the query are lower-cased by the runtime's \<^verbatim>\<open>toLowerCase\<close>, and the
  lower-cased query is a contiguous substring of the lower-cased name (some text before, the
  query, some text after). Of \<^verbatim>\<open>toLowerCase\<close> the last part uses only that it maps the
  empty string to the empty string. For a lower-casing that works unit by unit, as on ASCII
  text, \<open>filteredProjects_unitwise\<close> gives the same with a substring of the name itself
  that equals the query up to case.
\<close>

theorem filteredProjects_case_insensitive_substring:
  "filteredProjects toLowerCase projects searchQuery =
     filter (\<lambda>p. \<exists>before after.
                toLowerCase (project_name p) = before @ toLowerCase searchQuery @ after)
       projects
   \<and> set (filteredProjects toLowerCase projects searchQuery) =
       {p. p \<in> set projects \<and>
           sublist (toLowerCase searchQuery) (toLowerCase (project_name p))}
   \<and> subseq (filteredProjects toLowerCase projects searchQuery) projects
   \<and> (toLowerCase [] = [] \<longrightarrow> filteredProjects toLowerCase projects [] = projects)"
proof -
  have eq: "filteredProjects toLowerCase projects searchQuery =
      filter (\<lambda>p. sublist (toLowerCase searchQuery) (toLowerCase (project_name p))) projects"
    by (simp add: filteredProjects_def js_includes_sublist)
  have "filteredProjects toLowerCase projects searchQuery =
     filter (\<lambda>p. \<exists>before after.
                toLowerCase (project_name p) = before @ toLowerCase searchQuery @ after)
       projects"
    unfolding eq by (simp add: sublist_def)
  moreover have "set (filteredProjects toLowerCase projects searchQuery) =
       {p. p \<in> set projects \<and>
           sublist (toLowerCase searchQuery) (toLowerCase (project_name p))}"
    unfolding eq by auto
  moreover have "subseq (filteredProjects toLowerCase projects searchQuery) projects"
    unfolding eq by simp
  moreover have "toLowerCase [] = [] \<longrightarrow> filteredProjects toLowerCase projects [] = projects"
    by (simp add: filteredProjects_def js_includes_sublist)
  ultimately show ?thesis by blast
qed

theorem filteredProjects_case_insensitive_substring_witness:
  "asciiToLowerCase [] = []
   \<and> filteredProjects asciiToLowerCase mockProjects [] = mockProjects
   \<and> map project_id (filteredProjects asciiToLowerCase mockProjects ''PRO'') = [2]"
proof -
  have e: "asciiToLowerCase [] = []"
    by (simp add: asciiToLowerCase_def)
  have l: "asciiToLowerCase ''PRO'' = ''pro''"
    by (simp add: asciiToLowerCase_def asciiLowerUnit_def)
  have n: "map (\<lambda>p. asciiToLowerCase (project_name p)) mockProjects =
      [''summer vacation photos'', ''product launch video'', ''portrait session'']"
    by (simp add: mockProjects_def asciiToLowerCase_def asciiLowerUnit_def)
  have s: "map (\<lambda>p. js_includes (asciiToLowerCase (project_name p)) ''pro'') mockProjects =
      [False, True, False]"
    using n by (simp add: mockProjects_def)
  have "map project_id
          (filter (\<lambda>p. js_includes (asciiToLowerCase (project_name p)) ''pro'') mockProjects) = [2]"
    using s by (simp add: mockProjects_def)
  then have "map project_id
      (filter (\<lambda>p. \<exists>before after.
                 asciiToLowerCase (project_name p) = before @ asciiToLowerCase ''PRO'' @ after)
         mockProjects) = [2]"
    by (simp add: l js_includes_sublist sublist_def)
  with e filteredProjects_case_insensitive_substring [of asciiToLowerCase mockProjects "''PRO''"]
    filteredProjects_case_insensitive_substring [of asciiToLowerCase mockProjects "[]"]
  show ?thesis by simp
qed

lemma filteredProjects_unitwise:
  "filteredProjects (map lowerUnit) projects searchQuery =
     filter (\<lambda>p. \<exists>s. sublist s (project_name p) \<and> map lowerUnit s = map lowerUnit searchQuery)
       projects"
  by (simp add: filteredProjects_def js_includes_sublist sublist_map_iff)

text \<open>
  C10. When \<^verbatim>\<open>message\<close> is empty or holds white space only, \<^verbatim>\<open>handleSendMessage\<close>
  returns with the state as it was, so the history and the input are unchanged. Otherwise the
  history it sets is the old one followed by exactly two entries, the user's message and then
  the assistant's reply: its length grows by two, the old entries are its first
  entries, unchanged, and the input is cleared. (The timer the handler starts is a later
  step, \<open>fireTimeout\<close>; see \<open>handleSendMessage_schedules_done\<close>.)
\<close>

theorem handleSendMessage_appends_two_or_nothing:
  "(list_all isWhiteSpace (message st) \<longrightarrow>
      handleSendMessage isWhiteSpace st = st)
   \<and> (\<not> list_all isWhiteSpace (message st) \<longrightarrow>
      chatHistory (handleSendMessage isWhiteSpace st) =
        chatHistory st @
        [\<lparr>entry_type = ''user'', entry_content = message st\<rparr>,
         \<lparr>entry_type = ''assistant'',
          entry_content = ''Great! I'll apply those changes to your image. Processing...''\<rparr>]
      \<and> length (chatHistory (handleSendMessage isWhiteSpace st)) = length (chatHistory st) + 2
      \<and> take (length (chatHistory st)) (chatHistory (handleSendMessage isWhiteSpace st)) =
          chatHistory st
      \<and> message (handleSendMessage isWhiteSpace st) = [])"
proof (cases "list_all isWhiteSpace (message st)")
  case True
  then have "js_trim isWhiteSpace (message st) = []"
    by (simp add: js_trim_empty_iff)
  then have "handleSendMessage isWhiteSpace st = st"
    by (simp add: handleSendMessage_def)
  with True show ?thesis by simp
next
  case False
  then have ne: "js_trim isWhiteSpace (message st) \<noteq> []"
    by (simp add: js_trim_empty_iff)
  have h: "chatHistory (handleSendMessage isWhiteSpace st) =
        chatHistory st @
        [\<lparr>entry_type = ''user'', entry_content = message st\<rparr>,
         \<lparr>entry_type = ''assistant'',
          entry_content = ''Great! I'll apply those changes to your image. Processing...''\<rparr>]"
    using ne by (simp add: handleSendMessage_def Let_def)
  have m: "message (handleSendMessage isWhiteSpace st) = []"
    using ne by (simp add: handleSendMessage_def Let_def)
  from False h m show ?thesis by simp
qed

theorem handleSendMessage_appends_two_or_nothing_witness:
  "handleSendMessage latin1WhiteSpace (initialEditorState\<lparr>message := ''  ''\<rparr>) =
     initialEditorState\<lparr>message := ''  ''\<rparr>
   \<and> chatHistory (handleSendMessage latin1WhiteSpace (initialEditorState\<lparr>message := '' Add warmth''\<rparr>)) =
       chatHistory initialEditorState @
       [\<lparr>entry_type = ''user'', entry_content = '' Add warmth''\<rparr>,
        \<lparr>entry_type = ''assistant'',
         entry_content = ''Great! I'll apply those changes to your image. Processing...''\<rparr>]
   \<and> message (handleSendMessage latin1WhiteSpace (initialEditorState\<lparr>message := '' Add warmth''\<rparr>)) = []"
  using
    handleSendMessage_appends_two_or_nothing
      [of latin1WhiteSpace "initialEditorState\<lparr>message := ''  ''\<rparr>"]
    handleSendMessage_appends_two_or_nothing
      [of latin1WhiteSpace "initialEditorState\<lparr>message := '' Add warmth''\<rparr>"]
  by (simp add: latin1WhiteSpace_def)

lemma handleSendMessage_schedules_done:
  "\<not> list_all isWhiteSpace (message st) \<Longrightarrow>
   pendingTimeouts (handleSendMessage isWhiteSpace st) =
     pendingTimeouts st @
     [(2000, chatHistory (handleSendMessage isWhiteSpace st) @
        [\<lparr>entry_type = ''assistant'',
          entry_content =
            ''Done! I've enhanced the saturation and added a warm vintage feel to your image. How does it look?''\<rparr>])]"
  by (simp add: handleSendMessage_def js_trim_empty_iff Let_def)

lemma fireTimeout_after_handleSendMessage:
  "\<not> list_all isWhiteSpace (message st) \<Longrightarrow> pendingTimeouts st = [] \<Longrightarrow>
   chatHistory (fireTimeout (handleSendMessage isWhiteSpace st)) =
     chatHistory (handleSendMessage isWhiteSpace st) @
     [\<lparr>entry_type = ''assistant'',
       entry_content =
         ''Done! I've enhanced the saturation and added a warm vintage feel to your image. How does it look?''\<rparr>]"
  by (simp add: handleSendMessage_def js_trim_empty_iff Let_def)

section \<open>Claims about DraftClient and PlanExecutor\<close>

subsection \<open>The retry policy\<close>

lemma attempts_loop_rejected:
  "\<lbrakk>\<forall>i<j. is_transient (server (n + i)); server (n + j) = Inl Rejected; j < left\<rbrakk>
   \<Longrightarrow> attempts_loop server left n last_failure = (Inl Rejected, Suc (n + j))"
proof (induction left arbitrary: n j last_failure)
  case 0
  then show ?case by simp
next
  case (Suc left)
  show ?case
  proof (cases j)
    case 0
    with Suc.prems show ?thesis by simp
  next
    case (Suc j')
    have t: "is_transient (server n)" using Suc.prems(1) Suc by force
    have a: "\<forall>i<j'. is_transient (server (Suc n + i))" using Suc.prems(1) Suc by force
    have b: "server (Suc n + j') = Inl Rejected" using Suc.prems(2) Suc by simp
    have c: "j' < left" using Suc.prems(3) Suc by simp
    have "attempts_loop server left (Suc n) f = (Inl Rejected, Suc (Suc n + j'))" for f
      using Suc.IH [OF a b c] .
    with t Suc show ?thesis by (auto simp: is_transient_def)
  qed
qed

lemma attempts_loop_acknowledged:
  "\<lbrakk>\<forall>i<j. is_transient (server (n + i)); server (n + j) = Inr e; j < left\<rbrakk>
   \<Longrightarrow> attempts_loop server left n last_failure = (Inr e, Suc (n + j))"
proof (induction left arbitrary: n j last_failure)
  case 0
  then show ?case by simp
next
  case (Suc left)
  show ?case
  proof (cases j)
    case 0
    with Suc.prems show ?thesis by simp
  next
    case (Suc j')
    have t: "is_transient (server n)" using Suc.prems(1) Suc by force
    have a: "\<forall>i<j'. is_transient (server (Suc n + i))" using Suc.prems(1) Suc by force
    have b: "server (Suc n + j') = Inr e" using Suc.prems(2) Suc by simp
    have c: "j' < left" using Suc.prems(3) Suc by simp
    have "attempts_loop server left (Suc n) f = (Inr e, Suc (Suc n + j'))" for f
      using Suc.IH [OF a b c] .
    with t Suc show ?thesis by (auto simp: is_transient_def)
  qed
qed

lemma attempts_loop_exhausted:
  "\<forall>i<left. is_transient (server (n + i))
   \<Longrightarrow> snd (attempts_loop server left n last_failure) = n + left \<and>
       settle (fst (attempts_loop server left n last_failure)) = Failed"
proof (induction left arbitrary: n last_failure)
  case 0
  then show ?case by (simp add: settle_def)
next
  case (Suc left)
  have t: "is_transient (server n)" using Suc.prems by force
  have a: "\<forall>i<left. is_transient (server (Suc n + i))" using Suc.prems by force
  have "snd (attempts_loop server left (Suc n) f) = Suc n + left \<and>
       settle (fst (attempts_loop server left (Suc n) f)) = Failed" for f
    using Suc.IH [OF a] .
  with t show ?case by (auto simp: is_transient_def)
qed

text \<open>
  C3. A \<open>Rejected\<close> result is never retried: when the attempts before it were all
  transient failures and it arrives within the cap, the call returns \<open>Rejected\<close> and the
  attempt that was rejected is the last one made. \<open>Unreachable\<close> and \<open>ServerError\<close> are
  retried up to the cap: a server that only fails transiently is tried exactly \<open>cap\<close>
  times and the operation ends \<open>Failed\<close>. For a server that returns \<open>ServerError\<close> exactly
  \<open>k\<close> times and then succeeds, the operation ends \<open>Acknowledged\<close> when \<open>k\<close> is below
  the cap and \<open>Failed\<close> when \<open>k\<close> is at or above it.
\<close>

theorem draft_client_retry_policy:
  "(j < cap \<and> (\<forall>i<j. is_transient (server i)) \<and> server j = Inl Rejected \<longrightarrow>
      call_with_retry cap server = (Inl Rejected, Suc j))
   \<and> ((\<forall>i<cap. is_transient (server i)) \<longrightarrow>
      snd (call_with_retry cap server) = cap \<and>
      settle (fst (call_with_retry cap server)) = Failed)
   \<and> (k < cap \<longrightarrow>
      call_with_retry cap (server_error_then_ok k e) = (Inr e, Suc k) \<and>
      settle (fst (call_with_retry cap (server_error_then_ok k e))) = Acknowledged)
   \<and> (cap \<le> k \<longrightarrow>
      snd (call_with_retry cap (server_error_then_ok k e)) = cap \<and>
      settle (fst (call_with_retry cap (server_error_then_ok k e))) = Failed)"
proof -
  have r: "j < cap \<and> (\<forall>i<j. is_transient (server i)) \<and> server j = Inl Rejected \<longrightarrow>
      call_with_retry cap server = (Inl Rejected, Suc j)"
    using attempts_loop_rejected [of j server 0 cap Unreachable]
    by (simp add: call_with_retry_def)
  have x: "(\<forall>i<cap. is_transient (server i)) \<longrightarrow>
      snd (call_with_retry cap server) = cap \<and>
      settle (fst (call_with_retry cap server)) = Failed"
    using attempts_loop_exhausted [of cap server 0 Unreachable]
    by (simp add: call_with_retry_def)
  have ok: "k < cap \<longrightarrow>
      call_with_retry cap (server_error_then_ok k e) = (Inr e, Suc k) \<and>
      settle (fst (call_with_retry cap (server_error_then_ok k e))) = Acknowledged"
    using attempts_loop_acknowledged [of k "server_error_then_ok k e" 0 e cap Unreachable]
    by (simp add: call_with_retry_def server_error_then_ok_def is_transient_def settle_def)
  have ko: "cap \<le> k \<longrightarrow>
      snd (call_with_retry cap (server_error_then_ok k e)) = cap \<and>
      settle (fst (call_with_retry cap (server_error_then_ok k e))) = Failed"
    using attempts_loop_exhausted [of cap "server_error_then_ok k e" 0 Unreachable]
    by (simp add: call_with_retry_def server_error_then_ok_def is_transient_def)
  from r x ok ko show ?thesis by blast
qed

theorem draft_client_retry_policy_witness:
  "call_with_retry 3 (\<lambda>n. if n = 0 then Inl Unreachable else Inl Rejected) = (Inl Rejected, 2)
   \<and> snd (call_with_retry 3 (\<lambda>n. Inl Unreachable)) = 3
   \<and> settle (fst (call_with_retry 3 (server_error_then_ok 2 ''v1''))) = Acknowledged
   \<and> settle (fst (call_with_retry 3 (server_error_then_ok 3 ''v1''))) = Failed"
  using
    draft_client_retry_policy
      [of 1 3 "\<lambda>n. if n = 0 then Inl Unreachable else Inl Rejected" 2 "''v1''"]
    draft_client_retry_policy [of 0 3 "\<lambda>n. Inl Unreachable" 3 "''v1''"]
  by (simp add: is_transient_def settle_def)

subsection \<open>The executor\<close>



















section \<open>Claims about cancellation\<close>

lemma send_operation_issue_settle:
  "send_operation cap server s i = settle_operation cap server (issue_operation s i) i"
  by (simp add: send_operation_def settle_operation_def issue_operation_def Let_def
      split: sum.splits)

lemma calls_settle_operation: "calls (settle_operation cap server s i) = calls s"
  by (simp add: settle_operation_def split: sum.splits)

lemma statuses_settle_operation:
  "statuses (settle_operation cap server s i) =
     (statuses s)[i := settle (fst (call_with_retry cap (server i)))]"
  by (simp add: settle_operation_def settle_def split: sum.splits)

lemma length_statuses_step:
  "length (statuses (run_session (step fan_out cap server save_server plan st ev))) =
   length (statuses (run_session st))"
  by (cases ev)
    (auto simp: statuses_settle_operation issue_operation_def
      split: client_call.splits list.splits option.splits sum.splits)

lemma cancelled_step:
  "run_cancelled st \<Longrightarrow> run_cancelled (step fan_out cap server save_server plan st ev)"
  by (cases ev) (auto split: client_call.splits)

lemma calls_step_cancelled:
  "run_cancelled st \<Longrightarrow>
   calls (run_session (step fan_out cap server save_server plan st ev)) = calls (run_session st)"
  by (cases ev) (auto simp: calls_settle_operation split: client_call.splits)

lemma in_flight_step_cancelled:
  "run_cancelled st \<Longrightarrow>
   set (run_in_flight (step fan_out cap server save_server plan st ev)) \<subseteq> set (run_in_flight st)"
  by (cases ev) (auto split: client_call.splits dest: set_remove1_subset [THEN subsetD])

lemma statuses_step_cancelled:
  "statuses (run_session (step fan_out cap server save_server plan st ev)) ! i =
   statuses (run_session st) ! i"
  if "run_cancelled st" "OperationCall i \<notin> set (run_in_flight st)"
proof (cases ev)
  case (Response c)
  show ?thesis
  proof (cases c)
    case (OperationCall j)
    show ?thesis
    proof (cases "c \<in> set (run_in_flight st)")
      case True
      with that OperationCall have "j \<noteq> i" by auto
      with True OperationCall Response show ?thesis
        by (simp add: statuses_settle_operation)
    next
      case False
      with Response show ?thesis by simp
    qed
  next
    case SaveDraftCall
    with Response show ?thesis by simp
  qed
qed (use that in auto)

lemma in_flight_kept:
  "c \<in> set (run_in_flight st) \<Longrightarrow> ev \<noteq> Response c \<Longrightarrow>
   c \<in> set (run_in_flight (step fan_out cap server save_server plan st ev))"
  by (cases ev) (auto split: client_call.splits list.splits)

lemma response_settles:
  "OperationCall i \<in> set (run_in_flight st) \<Longrightarrow> i < length (statuses (run_session st)) \<Longrightarrow>
   statuses (run_session (step fan_out cap server save_server plan st (Response (OperationCall i)))) ! i =
   settle (fst (call_with_retry cap (server i)))"
  by (simp add: statuses_settle_operation)

lemma report_waits:
  "run_in_flight st \<noteq> [] \<Longrightarrow> step fan_out cap server save_server plan st Report = st"
  by simp

lemma reported_cancelled_step:
  "reported_cancelled st \<Longrightarrow>
   reported_cancelled (step fan_out cap server save_server plan st ev)"
  by (cases ev) (auto simp: reported_cancelled_def split: client_call.splits)

lemma cancelled_run:
  "run_cancelled st \<Longrightarrow> run_cancelled (run fan_out cap server save_server plan st evs)"
  unfolding run_def by (induction evs arbitrary: st) (simp_all add: cancelled_step)

lemma calls_run_cancelled:
  "run_cancelled st \<Longrightarrow>
   calls (run_session (run fan_out cap server save_server plan st evs)) = calls (run_session st)"
  unfolding run_def
  by (induction evs arbitrary: st) (simp_all add: cancelled_step calls_step_cancelled)

lemma in_flight_run_cancelled:
  "run_cancelled st \<Longrightarrow>
   set (run_in_flight (run fan_out cap server save_server plan st evs)) \<subseteq> set (run_in_flight st)"
  unfolding run_def
proof (induction evs arbitrary: st)
  case Nil
  show ?case by simp
next
  case (Cons ev evs)
  have "set (run_in_flight (foldl (step fan_out cap server save_server plan)
          (step fan_out cap server save_server plan st ev) evs))
        \<subseteq> set (run_in_flight (step fan_out cap server save_server plan st ev))"
    using Cons.prems by (intro Cons.IH cancelled_step)
  also have "\<dots> \<subseteq> set (run_in_flight st)"
    using Cons.prems by (rule in_flight_step_cancelled)
  finally show ?case by simp
qed

lemma statuses_run_cancelled:
  "run_cancelled st \<Longrightarrow> OperationCall i \<notin> set (run_in_flight st) \<Longrightarrow>
   statuses (run_session (run fan_out cap server save_server plan st evs)) ! i =
   statuses (run_session st) ! i"
  unfolding run_def
proof (induction evs arbitrary: st)
  case Nil
  show ?case by simp
next
  case (Cons ev evs)
  have c: "run_cancelled (step fan_out cap server save_server plan st ev)"
    using Cons.prems(1) by (rule cancelled_step)
  have n: "OperationCall i \<notin> set (run_in_flight (step fan_out cap server save_server plan st ev))"
    using Cons.prems in_flight_step_cancelled [of st fan_out cap server save_server plan ev]
    by blast
  show ?case
    using Cons.IH [OF c n] Cons.prems by (simp add: statuses_step_cancelled)
qed

lemma length_statuses_run:
  "length (statuses (run_session (run fan_out cap server save_server plan st evs))) =
   length (statuses (run_session st))"
  unfolding run_def by (induction evs arbitrary: st) (simp_all add: length_statuses_step)

lemma reported_cancelled_run:
  "reported_cancelled st \<Longrightarrow>
   reported_cancelled (run fan_out cap server save_server plan st evs)"
  unfolding run_def by (induction evs arbitrary: st) (simp_all add: reported_cancelled_step)

lemma run_append:
  "run fan_out cap server save_server plan st (evs @ evs') =
   run fan_out cap server save_server plan (run fan_out cap server save_server plan st evs) evs'"
  by (simp add: run_def)


lemma scenario_indices:
  "cut_indices scenario_plan = [0, 1]" "overlay_indices scenario_plan = [2]"
  by code_simp+

lemma scenario_cancelled_after_first_cut:
  assumes "settle (fst (call_with_retry cap (server 0))) = Acknowledged"
  shows "run fan_out cap server save_server scenario_plan (initial_run scenario_plan)
           [Issue, Response (OperationCall 0), CancelSignal] =
         \<lparr>run_session =
            \<lparr>statuses = [Acknowledged, Pending, Pending], calls = [OperationCall 0],
             failures = []\<rparr>,
          run_todo = [1, 2], run_in_flight = [], run_saved = None,
          run_cancelled = True, run_reported = None\<rparr>"
proof -
  obtain element_id where "fst (call_with_retry cap (server 0)) = Inr element_id"
    using assms by (cases "fst (call_with_retry cap (server 0))") (simp_all add: settle_def)
  moreover have "length scenario_plan = 3" "op_kind (scenario_plan ! 0) = VideoCut"
    by (simp_all add: scenario_plan_def)
  ultimately show ?thesis
    by (simp add: run_def initial_run_def scenario_indices may_issue_def issue_operation_def
        settle_operation_def numeral_3_eq_3)
qed

text \<open>
  C7. For every state of a run and every schedule of further events:
  \<^item> a call in flight when the cancellation signal arrives is not aborted: its response
    still settles the operation, it stays in flight under every event but its own
    response, and the run is not reported while a call is in flight;
  \<^item> after the signal no call is issued, whatever events follow: the list of calls stays
    as it was;
  \<^item> after the signal the status of every operation that is not in flight stays as it
    was, and the run is reported as \<open>Cancelled\<close> with exactly the statuses of the session;
  \<^item> in particular, on the plan of section 8, when the signal arrives after the first cut
    is acknowledged and before the second is sent, then under every later schedule the
    report is \<open>Cancelled\<close> with the first operation \<open>Acknowledged\<close> and the others
    \<open>Pending\<close>, and the first cut's call is the only call made.
\<close>

theorem cancellation_lets_calls_finish_and_issues_none:
  "(OperationCall i \<in> set (run_in_flight st) \<and> i < length (statuses (run_session st)) \<longrightarrow>
      statuses (run_session
        (step fan_out cap server save_server plan
           (step fan_out cap server save_server plan st CancelSignal)
           (Response (OperationCall i)))) ! i =
      settle (fst (call_with_retry cap (server i))))
   \<and> (c \<in> set (run_in_flight st) \<and> ev \<noteq> Response c \<longrightarrow>
      c \<in> set (run_in_flight (step fan_out cap server save_server plan st ev)))
   \<and> (run_in_flight st \<noteq> [] \<longrightarrow> step fan_out cap server save_server plan st Report = st)
   \<and> (run_cancelled st \<longrightarrow>
      calls (run_session (run fan_out cap server save_server plan st evs)) =
      calls (run_session st))
   \<and> (run_cancelled st \<and> OperationCall i \<notin> set (run_in_flight st) \<longrightarrow>
      statuses (run_session (run fan_out cap server save_server plan st evs)) ! i =
      statuses (run_session st) ! i)
   \<and> (run_cancelled st \<and> run_reported st = None \<longrightarrow>
      run_reported (run fan_out cap server save_server plan st evs) = None \<or>
      run_reported (run fan_out cap server save_server plan st evs) =
        Some (Cancelled (statuses (run_session (run fan_out cap server save_server plan st evs)))))
   \<and> (run_cancelled st \<and> run_reported st = None \<and> run_in_flight st = [] \<longrightarrow>
      run_reported (step fan_out cap server save_server plan st Report) =
        Some (Cancelled (statuses (run_session st))))
   \<and> (settle (fst (call_with_retry cap (server 0))) = Acknowledged \<longrightarrow>
      run_reported
        (run fan_out cap server save_server scenario_plan (initial_run scenario_plan)
           ([Issue, Response (OperationCall 0), CancelSignal] @ evs @ [Report])) =
        Some (Cancelled [Acknowledged, Pending, Pending])
      \<and> statuses (run_session
        (run fan_out cap server save_server scenario_plan (initial_run scenario_plan)
           ([Issue, Response (OperationCall 0), CancelSignal] @ evs @ [Report]))) =
        [Acknowledged, Pending, Pending]
      \<and> calls (run_session
        (run fan_out cap server save_server scenario_plan (initial_run scenario_plan)
           ([Issue, Response (OperationCall 0), CancelSignal] @ evs @ [Report]))) =
        [OperationCall 0])"
proof -
  have finish: "OperationCall i \<in> set (run_in_flight st) \<and>
      i < length (statuses (run_session st)) \<longrightarrow>
      statuses (run_session
        (step fan_out cap server save_server plan
           (step fan_out cap server save_server plan st CancelSignal)
           (Response (OperationCall i)))) ! i =
      settle (fst (call_with_retry cap (server i)))"
    using response_settles [of i "step fan_out cap server save_server plan st CancelSignal"]
    by simp
  have kept: "c \<in> set (run_in_flight st) \<and> ev \<noteq> Response c \<longrightarrow>
      c \<in> set (run_in_flight (step fan_out cap server save_server plan st ev))"
    using in_flight_kept by blast
  have waits: "run_in_flight st \<noteq> [] \<longrightarrow> step fan_out cap server save_server plan st Report = st"
    by simp
  have none: "run_cancelled st \<longrightarrow>
      calls (run_session (run fan_out cap server save_server plan st evs)) =
      calls (run_session st)"
    using calls_run_cancelled by blast
  have preserved: "run_cancelled st \<and> OperationCall i \<notin> set (run_in_flight st) \<longrightarrow>
      statuses (run_session (run fan_out cap server save_server plan st evs)) ! i =
      statuses (run_session st) ! i"
    using statuses_run_cancelled by blast
  have outcome: "run_cancelled st \<and> run_reported st = None \<longrightarrow>
      run_reported (run fan_out cap server save_server plan st evs) = None \<or>
      run_reported (run fan_out cap server save_server plan st evs) =
        Some (Cancelled (statuses (run_session (run fan_out cap server save_server plan st evs))))"
    using reported_cancelled_run [of st fan_out cap server save_server plan evs]
    by (auto simp: reported_cancelled_def)
  have reports: "run_cancelled st \<and> run_reported st = None \<and> run_in_flight st = [] \<longrightarrow>
      run_reported (step fan_out cap server save_server plan st Report) =
        Some (Cancelled (statuses (run_session st)))"
    by simp
  have scenario: "settle (fst (call_with_retry cap (server 0))) = Acknowledged \<longrightarrow>
      run_reported
        (run fan_out cap server save_server scenario_plan (initial_run scenario_plan)
           ([Issue, Response (OperationCall 0), CancelSignal] @ evs @ [Report])) =
        Some (Cancelled [Acknowledged, Pending, Pending])
      \<and> statuses (run_session
        (run fan_out cap server save_server scenario_plan (initial_run scenario_plan)
           ([Issue, Response (OperationCall 0), CancelSignal] @ evs @ [Report]))) =
        [Acknowledged, Pending, Pending]
      \<and> calls (run_session
        (run fan_out cap server save_server scenario_plan (initial_run scenario_plan)
           ([Issue, Response (OperationCall 0), CancelSignal] @ evs @ [Report]))) =
        [OperationCall 0]"
  proof
    assume ack: "settle (fst (call_with_retry cap (server 0))) = Acknowledged"
    define s3 where "s3 = run fan_out cap server save_server scenario_plan
      (initial_run scenario_plan) [Issue, Response (OperationCall 0), CancelSignal]"
    define s4 where "s4 = run fan_out cap server save_server scenario_plan s3 evs"
    have s3: "s3 = \<lparr>run_session =
            \<lparr>statuses = [Acknowledged, Pending, Pending], calls = [OperationCall 0],
             failures = []\<rparr>,
          run_todo = [1, 2], run_in_flight = [], run_saved = None,
          run_cancelled = True, run_reported = None\<rparr>"
      unfolding s3_def using ack by (rule scenario_cancelled_after_first_cut)
    have c3: "run_cancelled s3" and f3: "run_in_flight s3 = []" and r3: "reported_cancelled s3"
      by (simp_all add: s3 reported_cancelled_def)
    have c4: "run_cancelled s4" unfolding s4_def using c3 by (rule cancelled_run)
    have f4: "run_in_flight s4 = []"
      using in_flight_run_cancelled [OF c3, of fan_out cap server save_server scenario_plan evs] f3
      by (simp add: s4_def)
    have "calls (run_session s4) = calls (run_session s3)"
      unfolding s4_def using c3 by (rule calls_run_cancelled)
    then have calls4: "calls (run_session s4) = [OperationCall 0]"
      by (simp add: s3)
    have "length (statuses (run_session s4)) = length (statuses (run_session s3))"
      unfolding s4_def by (rule length_statuses_run)
    then have len4: "length (statuses (run_session s4)) = 3"
      by (simp add: s3)
    have "statuses (run_session s4) ! i = statuses (run_session s3) ! i" for i
      unfolding s4_def using c3 by (rule statuses_run_cancelled) (simp add: f3)
    then have nth4: "statuses (run_session s4) ! i = [Acknowledged, Pending, Pending] ! i" for i
      by (simp add: s3)
    have st4: "statuses (run_session s4) = [Acknowledged, Pending, Pending]"
      using len4 nth4 by (intro nth_equalityI) simp_all
    have r4: "run_reported s4 = None \<or> run_reported s4 = Some (Cancelled (statuses (run_session s4)))"
      using reported_cancelled_run [OF r3, of fan_out cap server save_server scenario_plan evs]
      by (auto simp: s4_def reported_cancelled_def)
    have whole: "run fan_out cap server save_server scenario_plan (initial_run scenario_plan)
           ([Issue, Response (OperationCall 0), CancelSignal] @ evs @ [Report]) =
        step fan_out cap server save_server scenario_plan s4 Report"
      by (simp add: run_def s4_def s3_def)
    show "run_reported
        (run fan_out cap server save_server scenario_plan (initial_run scenario_plan)
           ([Issue, Response (OperationCall 0), CancelSignal] @ evs @ [Report])) =
        Some (Cancelled [Acknowledged, Pending, Pending])
      \<and> statuses (run_session
        (run fan_out cap server save_server scenario_plan (initial_run scenario_plan)
           ([Issue, Response (OperationCall 0), CancelSignal] @ evs @ [Report]))) =
        [Acknowledged, Pending, Pending]
      \<and> calls (run_session
        (run fan_out cap server save_server scenario_plan (initial_run scenario_plan)
           ([Issue, Response (OperationCall 0), CancelSignal] @ evs @ [Report]))) =
        [OperationCall 0]"
      unfolding whole using r4 c4 f4 st4 calls4 by auto
  qed
  from finish kept waits none preserved outcome reports scenario show ?thesis by blast
qed

theorem cancellation_lets_calls_finish_and_issues_none_witness:
  "statuses (run_session
      (run 4 3 (\<lambda>i n. Inr ''element'') (\<lambda>n. Inr ''dfd_video_edited'') scenario_plan
         (initial_run scenario_plan) [Issue, CancelSignal, Response (OperationCall 0)])) ! 0 =
     Acknowledged
   \<and> calls (run_session
      (run 4 3 (\<lambda>i n. Inr ''element'') (\<lambda>n. Inr ''dfd_video_edited'') scenario_plan
         (initial_run scenario_plan)
         ([Issue, CancelSignal] @ [Issue, Response (OperationCall 0), Issue, Report]))) =
     [OperationCall 0]
   \<and> run_reported
      (run 4 3 (\<lambda>i n. Inr ''element'') (\<lambda>n. Inr ''dfd_video_edited'') scenario_plan
         (initial_run scenario_plan)
         ([Issue, Response (OperationCall 0), CancelSignal] @ [Issue, Issue] @ [Report])) =
     Some (Cancelled [Acknowledged, Pending, Pending])"
proof -
  let ?server = "\<lambda>i n. Inr ''element''"
  let ?save = "\<lambda>n. Inr ''dfd_video_edited''"
  define flying where "flying = run 4 3 ?server ?save scenario_plan (initial_run scenario_plan) [Issue]"
  have flying: "flying =
      \<lparr>run_session = \<lparr>statuses = [Sent, Pending, Pending], calls = [OperationCall 0], failures = []\<rparr>,
       run_todo = [1, 2], run_in_flight = [OperationCall 0], run_saved = None,
       run_cancelled = False, run_reported = None\<rparr>"
    unfolding flying_def by code_simp
  have ack: "settle (fst (call_with_retry 3 (?server 0))) = Acknowledged"
    by code_simp
  note main = cancellation_lets_calls_finish_and_issues_none
  have a: "statuses (run_session
        (step 4 3 ?server ?save scenario_plan (step 4 3 ?server ?save scenario_plan flying CancelSignal)
           (Response (OperationCall 0)))) ! 0 = Acknowledged"
    using main [where i = 0 and st = flying and cap = 3 and server = ?server and fan_out = 4
        and save_server = ?save and plan = scenario_plan] ack
    by (simp add: flying)
  have b: "calls (run_session
        (run 4 3 ?server ?save scenario_plan (step 4 3 ?server ?save scenario_plan flying CancelSignal)
           [Issue, Response (OperationCall 0), Issue, Report])) = [OperationCall 0]"
    using main [where st = "step 4 3 ?server ?save scenario_plan flying CancelSignal" and cap = 3
        and server = ?server and fan_out = 4 and save_server = ?save and plan = scenario_plan
        and evs = "[Issue, Response (OperationCall 0), Issue, Report]"]
    by (simp add: flying)
  have c: "run_reported
      (run 4 3 ?server ?save scenario_plan (initial_run scenario_plan)
         ([Issue, Response (OperationCall 0), CancelSignal] @ [Issue, Issue] @ [Report])) =
     Some (Cancelled [Acknowledged, Pending, Pending])"
    using main [where cap = 3 and server = ?server and fan_out = 4 and save_server = ?save
        and evs = "[Issue, Issue]"] ack
    by blast
  from a b c show ?thesis by (simp add: run_def flying_def)
qed

lemma run_without_signal_is_execute_on_scenario:
  "run_session
     (run 4 3 (\<lambda>i n. Inr ''element'') (\<lambda>n. Inr ''dfd_video_edited'') scenario_plan
        (initial_run scenario_plan)
        [Issue, Response (OperationCall 0), Issue, Response (OperationCall 1),
         Issue, Response (OperationCall 2), Issue, Response SaveDraftCall, Report]) =
   fst (execute 3 (\<lambda>i n. Inr ''element'') (\<lambda>n. Inr ''dfd_video_edited'') scenario_plan)
   \<and> run_reported
     (run 4 3 (\<lambda>i n. Inr ''element'') (\<lambda>n. Inr ''dfd_video_edited'') scenario_plan
        (initial_run scenario_plan)
        [Issue, Response (OperationCall 0), Issue, Response (OperationCall 1),
         Issue, Response (OperationCall 2), Issue, Response SaveDraftCall, Report]) =
   Some (Completed
     (snd (execute 3 (\<lambda>i n. Inr ''element'') (\<lambda>n. Inr ''dfd_video_edited'') scenario_plan)))"
  by code_simp

end
